theory Spec2Isabelle
  imports Complex_Main "HOL-Library.Sublist"
begin

section \<open>The squat dashboard: angle calculator, rep counter and rep feedback\<close>

text \<open>
  The development follows \<^verbatim>\<open>src/python/squat_dashboard.py\<close> (class
  \<^verbatim>\<open>SquatDashboard\<close>). Python floats are idealised as the real numbers
  they approximate, Python's unbounded integers are \<open>int\<close>, and the mutable
  instance is a record that every method takes and returns.
\<close>

subsection \<open>Angle calculator\<close>

text \<open>
  A landmark is used only through its two coordinates (\<^verbatim>\<open>point.x\<close>,
  \<^verbatim>\<open>point.y\<close>; in the OpenCV variant a tuple read at index 0 and 1).
  It is a pair: \<open>fst\<close> is x and \<open>snd\<close> is y.
\<close>

type_synonym point = "real \<times> real"

text \<open>
  \<^verbatim>\<open>np.arctan2(y, x)\<close>, the library function the calculator calls: the polar
  angle of the point \<open>(x, y)\<close>, chosen by the signs of both arguments, with value
  0 at the origin.
\<close>

definition arctan2 :: "real \<Rightarrow> real \<Rightarrow> real" where
  "arctan2 y x =
     (if 0 < x then arctan (y / x)
      else if x < 0 \<and> 0 \<le> y then arctan (y / x) + pi
      else if x < 0 \<and> y < 0 then arctan (y / x) - pi
      else if 0 < y then pi / 2
      else if y < 0 then - (pi / 2)
      else 0)"

definition calculate_angle :: "point \<Rightarrow> point \<Rightarrow> point \<Rightarrow> real" where
  "calculate_angle point1 point2 point3 =
     (let a = point1; b = point2; c = point3;
          radians = arctan2 (snd c - snd b) (fst c - fst b)
                  - arctan2 (snd a - snd b) (fst a - fst b);
          angle = \<bar>radians * 180 / pi\<bar>
      in if angle > 180 then 360 - angle else angle)"

subsection \<open>Rep counting state\<close>

text \<open>
  The fields that \<^verbatim>\<open>__init__\<close> creates for rep counting and feedback. The pose
  model and the drawing utilities are external objects that no method below reads.
\<close>

record dashboard =
  rep_count :: int
  in_squat :: bool
  squat_threshold :: real
  current_rep_metrics :: "(real \<times> real) list"
  deepest_knee_angle :: real
  deepest_torso_angle :: real
  last_rep_feedback :: string
  feedback_timer :: int
  feedback_duration :: int

definition init :: dashboard where
  "init = \<lparr> rep_count = 0, in_squat = False, squat_threshold = 140,
            current_rep_metrics = [], deepest_knee_angle = 180,
            deepest_torso_angle = 0, last_rep_feedback = [],
            feedback_timer = 0, feedback_duration = 180 \<rparr>"

subsection \<open>Rep feedback\<close>

text \<open>Python's \<^verbatim>\<open>sep.join(lines)\<close>.\<close>

fun join :: "string \<Rightarrow> string list \<Rightarrow> string" where
  "join sep [] = []"
| "join sep [l] = l"
| "join sep (l # m # ls) = l @ sep @ join sep (m # ls)"

definition generate_rep_feedback :: "dashboard \<Rightarrow> dashboard" where
  "generate_rep_feedback s =
     (let feedback_lines = [];
          feedback_lines = feedback_lines @
            [if deepest_knee_angle s \<ge> 170 then ''Too shallow - go deeper''
             else if 135 < deepest_knee_angle s \<and> deepest_knee_angle s < 170
               then ''Shallow squat - try for more depth''
             else if 110 \<le> deepest_knee_angle s \<and> deepest_knee_angle s \<le> 135
               then ''Perfect depth!''
             else if 90 \<le> deepest_knee_angle s \<and> deepest_knee_angle s < 110
               then ''Good depth''
             else if 70 \<le> deepest_knee_angle s \<and> deepest_knee_angle s < 90
               then ''Parallel depth achieved''
             else ''Very deep - be careful''];
          feedback_lines = feedback_lines @
            [if 30 \<le> deepest_torso_angle s \<and> deepest_torso_angle s \<le> 45
               then ''Good torso position''
             else if deepest_torso_angle s < 30 then ''Torso too upright''
             else if 45 < deepest_torso_angle s \<and> deepest_torso_angle s \<le> 60
               then ''Slight forward lean''
             else ''Too much forward lean'']
      in s\<lparr>last_rep_feedback := join '' | '' feedback_lines\<rparr>)"

subsection \<open>Rep state machine\<close>

definition update_rep_count :: "dashboard \<Rightarrow> real \<Rightarrow> real \<Rightarrow> dashboard" where
  "update_rep_count s knee_angle torso_angle =
     (if knee_angle > 0 then
        if knee_angle < squat_threshold s \<and> \<not> in_squat s then
          s\<lparr>in_squat := True,
            deepest_knee_angle := knee_angle,
            deepest_torso_angle := torso_angle,
            current_rep_metrics := []\<rparr>
        else if in_squat s then
          let s1 = (if knee_angle < deepest_knee_angle s
                    then s\<lparr>deepest_knee_angle := knee_angle,
                           deepest_torso_angle := torso_angle\<rparr>
                    else s);
              s2 = s1\<lparr>current_rep_metrics :=
                        current_rep_metrics s1 @ [(knee_angle, torso_angle)]\<rparr>
          in if knee_angle \<ge> squat_threshold s2 then
               let s3 = s2\<lparr>in_squat := False\<rparr>;
                   s4 = s3\<lparr>rep_count := rep_count s3 + 1\<rparr>;
                   s5 = generate_rep_feedback s4
               in s5\<lparr>feedback_timer := feedback_duration s5\<rparr>
             else s2
        else s
      else s)"

text \<open>
  A session feeds the frames' (knee angle, torso angle) pairs to
  \<^verbatim>\<open>update_rep_count\<close> one after the other, in order.
\<close>

fun updates :: "dashboard \<Rightarrow> (real \<times> real) list \<Rightarrow> dashboard" where
  "updates s [] = s"
| "updates s ((knee_angle, torso_angle) # frames) =
     updates (update_rep_count s knee_angle torso_angle) frames"

subsection \<open>Vocabulary of the properties\<close>

text \<open>The frames that carry a measurement: the guard of \<^verbatim>\<open>update_rep_count\<close>.\<close>

definition valid_frames :: "(real \<times> real) list \<Rightarrow> (real \<times> real) list" where
  "valid_frames frames = filter (\<lambda>f. fst f > 0) frames"

text \<open>
  The first frame of least knee angle among \<open>d # frames\<close>: a later frame replaces
  the current one only when its knee angle is strictly smaller.
\<close>

fun deepest_of :: "real \<times> real \<Rightarrow> (real \<times> real) list \<Rightarrow> real \<times> real" where
  "deepest_of d [] = d"
| "deepest_of d (f # frames) = deepest_of (if fst f < fst d then f else d) frames"

section \<open>Basic facts about the operations\<close>

lemma update_invalid: "\<not> 0 < k \<Longrightarrow> update_rep_count s k t = s"
  by (simp add: update_rep_count_def)

lemma generate_rep_feedback_fields:
  "rep_count (generate_rep_feedback s) = rep_count s"
  "in_squat (generate_rep_feedback s) = in_squat s"
  "squat_threshold (generate_rep_feedback s) = squat_threshold s"
  "deepest_knee_angle (generate_rep_feedback s) = deepest_knee_angle s"
  "deepest_torso_angle (generate_rep_feedback s) = deepest_torso_angle s"
  "feedback_duration (generate_rep_feedback s) = feedback_duration s"
  "feedback_timer (generate_rep_feedback s) = feedback_timer s"
  by (simp_all add: generate_rep_feedback_def Let_def)

lemma feedback_depends_on_deepest:
  "deepest_knee_angle s = deepest_knee_angle s' \<Longrightarrow>
   deepest_torso_angle s = deepest_torso_angle s' \<Longrightarrow>
   last_rep_feedback (generate_rep_feedback s) = last_rep_feedback (generate_rep_feedback s')"
  by (simp add: generate_rep_feedback_def Let_def)

lemma update_config:
  "squat_threshold (update_rep_count s k t) = squat_threshold s"
  "feedback_duration (update_rep_count s k t) = feedback_duration s"
  by (simp_all add: update_rep_count_def Let_def generate_rep_feedback_fields)

lemma updates_config:
  "squat_threshold (updates s frames) = squat_threshold s \<and>
   feedback_duration (updates s frames) = feedback_duration s"
  by (induction s frames rule: updates.induct) (simp_all add: update_config)

lemma updates_append: "updates s (fs @ gs) = updates (updates s fs) gs"
  by (induction s fs rule: updates.induct) simp_all

lemma update_standing:
  "squat_threshold s \<le> k \<Longrightarrow> \<not> in_squat s \<Longrightarrow> update_rep_count s k t = s"
  by (simp add: update_rep_count_def)

lemma update_track:
  "0 < k \<Longrightarrow> k < squat_threshold s \<Longrightarrow> in_squat s \<Longrightarrow>
   update_rep_count s k t =
     (if k < deepest_knee_angle s
      then s\<lparr>deepest_knee_angle := k, deepest_torso_angle := t,
             current_rep_metrics := current_rep_metrics s @ [(k, t)]\<rparr>
      else s\<lparr>current_rep_metrics := current_rep_metrics s @ [(k, t)]\<rparr>)"
  by (simp add: update_rep_count_def Let_def)

lemma update_enters:
  "\<not> in_squat s \<Longrightarrow> in_squat (update_rep_count s k t) \<Longrightarrow>
   0 < k \<and> k < squat_threshold s"
  by (cases "0 < k"; cases "k < squat_threshold s") (simp_all add: update_rep_count_def)

lemma update_close_in_squat:
  "in_squat s \<Longrightarrow> 0 < k \<Longrightarrow> squat_threshold s \<le> k \<Longrightarrow>
   \<not> in_squat (update_rep_count s k t)"
  by (cases "k < deepest_knee_angle s")
     (simp_all add: update_rep_count_def Let_def generate_rep_feedback_fields)

lemma update_stays:
  "in_squat s \<Longrightarrow> in_squat (update_rep_count s k t) \<Longrightarrow> 0 < k \<Longrightarrow>
   k < squat_threshold s"
  using update_close_in_squat [of s k t] by (cases "k < squat_threshold s") simp_all

lemma updates_standing:
  "\<not> in_squat s \<Longrightarrow> \<forall>f\<in>set frames. squat_threshold s \<le> fst f \<Longrightarrow>
   updates s frames = s"
  by (induction s frames rule: updates.induct) (simp_all add: update_standing)

lemma update_rep_count_mono: "rep_count s \<le> rep_count (update_rep_count s k t)"
  by (simp add: update_rep_count_def Let_def generate_rep_feedback_fields)

lemma updates_rep_count_mono: "rep_count s \<le> rep_count (updates s frames)"
proof (induction s frames rule: updates.induct)
  case (1 s)
  show ?case by simp
next
  case (2 s k t frames)
  have "rep_count s \<le> rep_count (update_rep_count s k t)"
    by (rule update_rep_count_mono)
  with 2 show ?case by simp
qed

section \<open>The worked example of one rep\<close>

text \<open>
  Claim C1, as the specification states it, fails. The knee angles
  180, 100, 100, 100, 180 open a rep at 100 and close it at 180, so the deepest knee
  angle is 100; the feedback generator puts 100 in the band from 90 up to 110,
  whose clause is "Good depth", not "Perfect depth!" (the band from 110 to 135).
  With torso angle 35 the feedback is "Good depth | Good torso position". Neither
  is the torso clause "Good torso position" for every torso angle: at 50 it is
  "Slight forward lean".
\<close>

theorem example_rep_not_perfect_depth:
  "\<not> sublist ''Perfect depth!''
       (last_rep_feedback
          (updates init [(180, 35), (100, 35), (100, 35), (100, 35), (180, 35)])) \<and>
   \<not> sublist ''Good torso position''
       (last_rep_feedback
          (updates init [(180, 50), (100, 50), (100, 50), (100, 50), (180, 50)]))"
  by (simp add: init_def update_rep_count_def generate_rep_feedback_def Let_def
        sublist_Cons_right)

text \<open>
  Claim C1, amended: for every constant torso angle \<open>t\<close> the sequence leaves
  \<open>rep_count = 1\<close> and \<open>deepest_knee_angle = 100\<close> (with the torso angle of that
  frame), the feedback is the one generated from these deepest values and starts
  with the clause "Good depth"; when \<open>30 \<le> t \<le> 45\<close> it is exactly
  "Good depth | Good torso position".
\<close>

theorem example_rep_good_depth:
  "rep_count (updates init [(180, t), (100, t), (100, t), (100, t), (180, t)]) = 1 \<and>
   \<not> in_squat (updates init [(180, t), (100, t), (100, t), (100, t), (180, t)]) \<and>
   deepest_knee_angle
     (updates init [(180, t), (100, t), (100, t), (100, t), (180, t)]) = 100 \<and>
   deepest_torso_angle
     (updates init [(180, t), (100, t), (100, t), (100, t), (180, t)]) = t \<and>
   last_rep_feedback (updates init [(180, t), (100, t), (100, t), (100, t), (180, t)]) =
     last_rep_feedback (generate_rep_feedback
       (updates init [(180, t), (100, t), (100, t), (100, t), (180, t)])) \<and>
   prefix ''Good depth | ''
     (last_rep_feedback
        (updates init [(180, t), (100, t), (100, t), (100, t), (180, t)])) \<and>
   (30 \<le> t \<and> t \<le> 45 \<longrightarrow>
      last_rep_feedback
        (updates init [(180, t), (100, t), (100, t), (100, t), (180, t)]) =
      ''Good depth | Good torso position'')"
  by (simp add: init_def update_rep_count_def generate_rep_feedback_def Let_def)

theorem example_rep_good_depth_witness:
  "(30::real) \<le> 35 \<and> (35::real) \<le> 45 \<and>
   rep_count
     (updates init [(180, 35), (100, 35), (100, 35), (100, 35), (180, 35)]) = 1 \<and>
   last_rep_feedback
     (updates init [(180, 35), (100, 35), (100, 35), (100, 35), (180, 35)]) =
   ''Good depth | Good torso position''"
proof -
  have "(30::real) \<le> 35 \<and> (35::real) \<le> 45"
    by simp
  with example_rep_good_depth [of 35] show ?thesis
    by blast
qed

section \<open>Frames without a pose\<close>

text \<open>
  Claim C4: an update with knee angle 0 (no pose) returns the state unchanged, in
  particular \<open>rep_count\<close>, \<open>in_squat\<close>, \<open>deepest_knee_angle\<close> and
  \<open>deepest_torso_angle\<close>; so it completes no rep, in an open rep as anywhere else.
\<close>

theorem missing_pose_noop:
  "update_rep_count s 0 t = s \<and>
   rep_count (update_rep_count s 0 t) = rep_count s \<and>
   in_squat (update_rep_count s 0 t) = in_squat s \<and>
   deepest_knee_angle (update_rep_count s 0 t) = deepest_knee_angle s \<and>
   deepest_torso_angle (update_rep_count s 0 t) = deepest_torso_angle s"
  by (simp add: update_rep_count_def)

text \<open>
  Claim C10: the guard is \<open>knee_angle > 0\<close>: for every knee angle that is not
  positive, negative ones included, the update returns the state unchanged.
\<close>

theorem nonpositive_knee_noop:
  assumes "k \<le> 0"
  shows "update_rep_count s k t = s \<and>
   rep_count (update_rep_count s k t) = rep_count s \<and>
   in_squat (update_rep_count s k t) = in_squat s \<and>
   deepest_knee_angle (update_rep_count s k t) = deepest_knee_angle s \<and>
   deepest_torso_angle (update_rep_count s k t) = deepest_torso_angle s"
  using assms by (simp add: update_rep_count_def)

theorem nonpositive_knee_noop_witness:
  "(- 5::real) \<le> 0 \<and>
   update_rep_count (init\<lparr>in_squat := True, deepest_knee_angle := 100\<rparr>) (- 5) 35 =
   init\<lparr>in_squat := True, deepest_knee_angle := 100\<rparr>"
  using nonpositive_knee_noop [of "- 5" "init\<lparr>in_squat := True, deepest_knee_angle := 100\<rparr>" 35]
  by simp

section \<open>The rep counter\<close>

text \<open>
  Claim C5: from the initial state, as long as the knee angle of every frame is at
  least 140, \<open>rep_count\<close> is 0 and \<open>in_squat\<close> is false after every call.
\<close>

theorem standing_counts_nothing:
  assumes "\<forall>f\<in>set frames. 140 \<le> fst f"
  shows "\<forall>n\<le>length frames.
           rep_count (updates init (take n frames)) = 0 \<and>
           \<not> in_squat (updates init (take n frames))"
proof (intro allI impI)
  fix n
  assume "n \<le> length frames"
  have "\<forall>f\<in>set (take n frames). squat_threshold init \<le> fst f"
    using assms by (auto simp: init_def dest: in_set_takeD)
  moreover have "\<not> in_squat init"
    by (simp add: init_def)
  ultimately have "updates init (take n frames) = init"
    by (rule updates_standing [rotated])
  then show "rep_count (updates init (take n frames)) = 0 \<and>
           \<not> in_squat (updates init (take n frames))"
    by (simp add: init_def)
qed

theorem standing_counts_nothing_witness:
  "(140::real) \<le> 180 \<and> (140::real) \<le> 140 \<and> (140::real) \<le> 155.5 \<and>
   rep_count (updates init (take 3 [(180, 35), (140, 40), (155.5, 0)])) = 0 \<and>
   \<not> in_squat (updates init (take 3 [(180, 35), (140, 40), (155.5, 0)]))"
proof -
  have h: "\<forall>f\<in>set [(180, 35), (140, 40), (155.5, 0::real)]. (140::real) \<le> fst f"
    by simp
  have "rep_count (updates init (take 3 [(180, 35), (140, 40), (155.5, 0)])) = 0 \<and>
   \<not> in_squat (updates init (take 3 [(180, 35), (140, 40), (155.5, 0)]))"
    using standing_counts_nothing [OF h, rule_format, of 3] by simp
  then show ?thesis
    by simp
qed

text \<open>
  Claim C6: no operation decreases \<open>rep_count\<close>: not one update, not a sequence
  of updates, not the feedback generator; from the initial state it is never
  negative.
\<close>

theorem rep_count_monotone:
  "rep_count s \<le> rep_count (update_rep_count s k t) \<and>
   rep_count s \<le> rep_count (updates s frames) \<and>
   0 \<le> rep_count (updates init frames) \<and>
   rep_count (generate_rep_feedback s) = rep_count s"
proof -
  have "rep_count init \<le> rep_count (updates init frames)"
    by (rule updates_rep_count_mono)
  then have "0 \<le> rep_count (updates init frames)"
    by (simp add: init_def)
  then show ?thesis
    by (simp add: update_rep_count_mono updates_rep_count_mono
          generate_rep_feedback_fields)
qed

section \<open>The deepest position of an open rep\<close>

lemma deepest_of_mem: "deepest_of d fs \<in> set (d # fs)"
  by (induction d fs rule: deepest_of.induct) auto

lemma deepest_of_le: "fst (deepest_of d fs) \<le> fst d"
  by (induction d fs rule: deepest_of.induct) (auto split: if_splits)

lemma deepest_of_lower: "f \<in> set (d # fs) \<Longrightarrow> fst (deepest_of d fs) \<le> fst f"
proof (induction d fs rule: deepest_of.induct)
  case (1 d)
  then show ?case by simp
next
  case (2 d g fs)
  have "fst (deepest_of (if fst g < fst d then g else d) fs) \<le> fst (if fst g < fst d then g else d)"
    by (rule deepest_of_le)
  with 2 show ?case by (auto split: if_splits)
qed

lemma deepest_of_Min: "fst (deepest_of d fs) = Min (fst ` set (d # fs))"
proof (rule sym, rule Min_eqI)
  show "finite (fst ` set (d # fs))" by simp
  show "\<And>y. y \<in> fst ` set (d # fs) \<Longrightarrow> fst (deepest_of d fs) \<le> y"
    using deepest_of_lower by blast
  show "fst (deepest_of d fs) \<in> fst ` set (d # fs)"
    using deepest_of_mem by blast
qed

lemma deepest_of_first:
  "\<exists>us vs. d # fs = us @ deepest_of d fs # vs \<and> (\<forall>f\<in>set us. fst (deepest_of d fs) < fst f)"
proof (induction d fs rule: deepest_of.induct)
  case (1 d)
  show ?case by (rule exI[of _ "[]"]) simp
next
  case (2 d g fs)
  show ?case
  proof (cases "fst g < fst d")
    case True
    define m where "m = deepest_of g fs"
    from True have dd: "deepest_of d (g # fs) = m" by (simp add: m_def)
    from 2 True obtain us vs where e: "g # fs = us @ m # vs"
      and l: "\<forall>f\<in>set us. fst m < fst f" unfolding m_def by auto
    have "fst m \<le> fst g" unfolding m_def by (rule deepest_of_le)
    with True have dl: "fst m < fst d" by simp
    have "d # g # fs = (d # us) @ m # vs" using e by simp
    moreover have "\<forall>f\<in>set (d # us). fst m < fst f" using l dl by simp
    ultimately show ?thesis unfolding dd by blast
  next
    case False
    define m where "m = deepest_of d fs"
    from False have dd: "deepest_of d (g # fs) = m" by (simp add: m_def)
    from 2 False obtain us vs where e: "d # fs = us @ m # vs"
      and l: "\<forall>f\<in>set us. fst m < fst f" unfolding m_def by auto
    show ?thesis
    proof (cases us)
      case Nil
      with e have "m = d" by simp
      then have "d # g # fs = [] @ m # g # fs" by simp
      then show ?thesis unfolding dd by (rule_tac x="[]" in exI) simp
    next
      case (Cons u us')
      with e have u: "u = d" and e': "fs = us' @ m # vs" by simp_all
      from l Cons u have "fst m < fst d" by simp
      with False have lg: "fst m < fst g" by simp
      have "d # g # fs = (d # g # us') @ m # vs" using e' by simp
      moreover have "\<forall>f\<in>set (d # g # us'). fst m < fst f"
        using l Cons u lg by simp
      ultimately show ?thesis unfolding dd by blast
    qed
  qed
qed

lemma updates_open_rep:
  "in_squat s \<Longrightarrow> \<forall>f\<in>set fs. 0 < fst f \<longrightarrow> fst f < squat_threshold s \<Longrightarrow>
   in_squat (updates s fs) \<and>
   (deepest_knee_angle (updates s fs), deepest_torso_angle (updates s fs)) =
     deepest_of (deepest_knee_angle s, deepest_torso_angle s) (valid_frames fs)"
proof (induction s fs rule: updates.induct)
  case (1 s)
  then show ?case by (simp add: valid_frames_def)
next
  case (2 s k t fs)
  show ?case
  proof (cases "0 < k")
    case False
    with 2 show ?thesis by (simp add: update_invalid valid_frames_def)
  next
    case True
    with 2 have lt: "k < squat_threshold s" by simp
    from True lt "2.prems"(1) have
      "in_squat (update_rep_count s k t)"
      "deepest_knee_angle (update_rep_count s k t) = (if k < deepest_knee_angle s then k else deepest_knee_angle s)"
      "deepest_torso_angle (update_rep_count s k t) = (if k < deepest_knee_angle s then t else deepest_torso_angle s)"
      by (simp_all add: update_track)
    with 2 True show ?thesis by (simp add: update_config valid_frames_def)
  qed
qed

lemma rep_opened:
  "\<not> in_squat s0 \<Longrightarrow> in_squat (updates s0 frames) \<Longrightarrow>
   \<exists>pre k0 t0 post. frames = pre @ (k0, t0) # post \<and> \<not> in_squat (updates s0 pre) \<and>
     0 < k0 \<and> k0 < squat_threshold s0 \<and> (\<forall>f\<in>set post. 0 < fst f \<longrightarrow> fst f < squat_threshold s0)"
proof (induction frames rule: rev_induct)
  case Nil
  then show ?case by simp
next
  case (snoc f frames)
  obtain k t where f: "f = (k, t)" by (cases f)
  let ?s = "updates s0 frames"
  have thr: "squat_threshold ?s = squat_threshold s0" by (simp add: updates_config)
  from snoc.prems(2) f have after: "in_squat (update_rep_count ?s k t)"
    by (simp add: updates_append)
  show ?case
  proof (cases "in_squat ?s")
    case False
    from update_enters[OF False after] thr have "0 < k \<and> k < squat_threshold s0" by simp
    with False f have h: "frames @ [f] = frames @ (k, t) # [] \<and> \<not> in_squat (updates s0 frames) \<and>
       0 < k \<and> k < squat_threshold s0 \<and> (\<forall>f\<in>set []. 0 < fst f \<longrightarrow> fst f < squat_threshold s0)"
      by simp
    show ?thesis
      apply (rule exI[of _ frames])
      apply (rule exI[of _ k])
      apply (rule exI[of _ t])
      apply (rule exI[of _ "[]"])
      by (rule h)
  next
    case True
    from snoc.IH[OF snoc.prems(1) True] obtain pre k0 t0 post where d: "frames = pre @ (k0, t0) # post"
      "\<not> in_squat (updates s0 pre)" "0 < k0" "k0 < squat_threshold s0"
      "\<forall>f\<in>set post. 0 < fst f \<longrightarrow> fst f < squat_threshold s0" by (elim exE conjE)
    have "0 < k \<longrightarrow> k < squat_threshold s0"
      using update_stays[OF True after] thr by simp
    with d f have h: "frames @ [f] = pre @ (k0, t0) # (post @ [(k, t)]) \<and> \<not> in_squat (updates s0 pre) \<and>
       0 < k0 \<and> k0 < squat_threshold s0 \<and> (\<forall>f\<in>set (post @ [(k, t)]). 0 < fst f \<longrightarrow> fst f < squat_threshold s0)"
      by simp
    show ?thesis
      apply (rule exI[of _ pre])
      apply (rule exI[of _ k0])
      apply (rule exI[of _ t0])
      apply (rule exI[of _ "post @ [(k, t)]"])
      by (rule h)
  qed
qed

text \<open>
  Claim C3: started in a state that is not in a squat, whenever the state after a
  sequence of updates is in a squat, the current rep opened at some frame
  \<open>(k0, t0)\<close> of the sequence: the machine was not in a squat before that frame and
  is in a squat after it and after every later frame. Then \<open>deepest_knee_angle\<close> is
  the least knee angle of the valid frames from the opening frame on, and
  \<open>deepest_torso_angle\<close> is the torso angle of the frame that has this least knee
  angle (the first such frame), whatever the other torso angles are.
\<close>

theorem deepest_is_minimum_of_open_rep:
  assumes "\<not> in_squat s0" and "in_squat (updates s0 frames)"
  shows "\<exists>pre k0 t0 post.
      frames = pre @ (k0, t0) # post \<and>
      \<not> in_squat (updates s0 pre) \<and> 0 < k0 \<and>
      (\<forall>n\<le>length post. in_squat (updates s0 (pre @ (k0, t0) # take n post))) \<and>
      deepest_knee_angle (updates s0 frames) =
        Min (fst ` set (valid_frames ((k0, t0) # post))) \<and>
      (deepest_knee_angle (updates s0 frames), deepest_torso_angle (updates s0 frames)) =
        deepest_of (k0, t0) (valid_frames post) \<and>
      (\<exists>us vs. valid_frames ((k0, t0) # post) =
          us @ (deepest_knee_angle (updates s0 frames),
                deepest_torso_angle (updates s0 frames)) # vs \<and>
        (\<forall>f\<in>set us. deepest_knee_angle (updates s0 frames) < fst f))"
proof -
  from rep_opened [OF assms] obtain pre k0 t0 post where
    d: "frames = pre @ (k0, t0) # post" and pre: "\<not> in_squat (updates s0 pre)"
    and k0: "0 < k0" "k0 < squat_threshold s0"
    and post: "\<forall>f\<in>set post. 0 < fst f \<longrightarrow> fst f < squat_threshold s0"
    by (elim exE conjE)
  define s1 where "s1 = update_rep_count (updates s0 pre) k0 t0"
  have thr: "squat_threshold (updates s0 pre) = squat_threshold s0"
    by (simp add: updates_config)
  have s1: "in_squat s1" "deepest_knee_angle s1 = k0" "deepest_torso_angle s1 = t0"
    "squat_threshold s1 = squat_threshold s0"
    using pre k0 thr by (simp_all add: s1_def update_rep_count_def)
  have run: "updates s0 (pre @ (k0, t0) # gs) = updates s1 gs" for gs
    by (simp add: updates_append s1_def)
  have stay: "\<forall>n\<le>length post. in_squat (updates s0 (pre @ (k0, t0) # take n post))"
  proof (intro allI impI)
    fix n
    have "\<forall>f\<in>set (take n post). 0 < fst f \<longrightarrow> fst f < squat_threshold s1"
      using post s1(4) by (auto dest: in_set_takeD)
    from updates_open_rep [OF s1(1) this]
    show "in_squat (updates s0 (pre @ (k0, t0) # take n post))"
      by (simp add: run)
  qed
  have "\<forall>f\<in>set post. 0 < fst f \<longrightarrow> fst f < squat_threshold s1"
    using post s1(4) by simp
  from updates_open_rep [OF s1(1) this]
  have deep: "(deepest_knee_angle (updates s0 frames), deepest_torso_angle (updates s0 frames)) =
        deepest_of (k0, t0) (valid_frames post)"
    by (simp add: d run s1)
  have v: "valid_frames ((k0, t0) # post) = (k0, t0) # valid_frames post"
    using k0 by (simp add: valid_frames_def)
  have "deepest_knee_angle (updates s0 frames) = fst (deepest_of (k0, t0) (valid_frames post))"
    using deep by (metis fst_conv)
  then have mn: "deepest_knee_angle (updates s0 frames) =
        Min (fst ` set (valid_frames ((k0, t0) # post)))"
    by (simp only: v deepest_of_Min)
  have first: "\<exists>us vs. valid_frames ((k0, t0) # post) =
          us @ (deepest_knee_angle (updates s0 frames),
                deepest_torso_angle (updates s0 frames)) # vs \<and>
        (\<forall>f\<in>set us. deepest_knee_angle (updates s0 frames) < fst f)"
    using deepest_of_first [of "(k0, t0)" "valid_frames post"]
    unfolding v deep [symmetric] by simp
  have "frames = pre @ (k0, t0) # post \<and>
      \<not> in_squat (updates s0 pre) \<and> 0 < k0 \<and>
      (\<forall>n\<le>length post. in_squat (updates s0 (pre @ (k0, t0) # take n post))) \<and>
      deepest_knee_angle (updates s0 frames) =
        Min (fst ` set (valid_frames ((k0, t0) # post))) \<and>
      (deepest_knee_angle (updates s0 frames), deepest_torso_angle (updates s0 frames)) =
        deepest_of (k0, t0) (valid_frames post) \<and>
      (\<exists>us vs. valid_frames ((k0, t0) # post) =
          us @ (deepest_knee_angle (updates s0 frames),
                deepest_torso_angle (updates s0 frames)) # vs \<and>
        (\<forall>f\<in>set us. deepest_knee_angle (updates s0 frames) < fst f))"
    using d pre k0(1) stay mn deep first by (intro conjI)
  then show ?thesis
    apply (intro exI) by assumption
qed

theorem deepest_is_minimum_of_open_rep_witness:
  "\<not> in_squat init \<and>
   in_squat (updates init [(180, 35), (100, 50), (0, 0), (120, 30), (100, 20)]) \<and>
   deepest_knee_angle
     (updates init [(180, 35), (100, 50), (0, 0), (120, 30), (100, 20)]) = 100 \<and>
   deepest_torso_angle
     (updates init [(180, 35), (100, 50), (0, 0), (120, 30), (100, 20)]) = 50 \<and>
   (\<exists>pre k0 t0 post.
      [(180, 35), (100, 50), (0, 0), (120, 30), (100, 20)] = pre @ (k0, t0) # post \<and>
      deepest_knee_angle
        (updates init [(180, 35), (100, 50), (0, 0), (120, 30), (100, 20)]) =
        Min (fst ` set (valid_frames ((k0, t0) # post))))"
proof -
  have a: "\<not> in_squat init"
    by (simp add: init_def)
  have b: "in_squat (updates init [(180, 35), (100, 50), (0, 0), (120, 30), (100, 20)])"
    by (simp add: init_def update_rep_count_def Let_def)
  have c: "deepest_knee_angle
     (updates init [(180, 35), (100, 50), (0, 0), (120, 30), (100, 20)]) = 100"
    by (simp add: init_def update_rep_count_def Let_def)
  have d: "deepest_torso_angle
     (updates init [(180, 35), (100, 50), (0, 0), (120, 30), (100, 20)]) = 50"
    by (simp add: init_def update_rep_count_def Let_def)
  from deepest_is_minimum_of_open_rep [OF a b]
  have "\<exists>pre k0 t0 post.
      [(180, 35), (100, 50), (0, 0), (120, 30), (100, 20)] = pre @ (k0, t0) # post \<and>
      deepest_knee_angle
        (updates init [(180, 35), (100, 50), (0, 0), (120, 30), (100, 20)]) =
        Min (fst ` set (valid_frames ((k0, t0) # post)))"
    by (elim exE conjE) (intro exI conjI; assumption)
  with a b c d show ?thesis
    by (intro conjI)
qed

section \<open>The sub-threshold invariant and the feedback bands\<close>

lemma feedback_not_too_shallow:
  "deepest_knee_angle s < 170 \<Longrightarrow>
   \<not> sublist ''Too shallow - go deeper'' (last_rep_feedback (generate_rep_feedback s))"
  by (simp add: generate_rep_feedback_def Let_def sublist_Cons_right)

lemma update_close:
  "in_squat s \<Longrightarrow> 0 < k \<Longrightarrow> squat_threshold s \<le> k \<Longrightarrow> deepest_knee_angle s \<le> k \<Longrightarrow>
   deepest_knee_angle (update_rep_count s k t) = deepest_knee_angle s \<and>
   deepest_torso_angle (update_rep_count s k t) = deepest_torso_angle s \<and>
   last_rep_feedback (update_rep_count s k t) = last_rep_feedback (generate_rep_feedback s)"
  by (simp add: update_rep_count_def Let_def generate_rep_feedback_fields)
     (rule feedback_depends_on_deepest; simp)

lemma update_sub_threshold:
  assumes thr: "squat_threshold s = 140"
    and dk: "in_squat s \<longrightarrow> deepest_knee_angle s < 140"
    and fb: "\<not> sublist ''Too shallow - go deeper'' (last_rep_feedback s)"
  shows "(in_squat (update_rep_count s k t) \<longrightarrow>
            deepest_knee_angle (update_rep_count s k t) < 140) \<and>
         \<not> sublist ''Too shallow - go deeper'' (last_rep_feedback (update_rep_count s k t))"
proof -
  consider "\<not> 0 < k" | "0 < k" "k < 140" "\<not> in_squat s" | "0 < k" "k < 140" "in_squat s"
    | "0 < k" "140 \<le> k" "in_squat s" | "140 \<le> k" "\<not> in_squat s"
    by linarith
  then show ?thesis
  proof cases
    case 1
    with dk fb show ?thesis by (simp add: update_invalid)
  next
    case 2
    with thr fb show ?thesis by (simp add: update_rep_count_def)
  next
    case 3
    with thr dk fb show ?thesis by (simp add: update_track)
  next
    case 4
    with dk have le: "deepest_knee_angle s \<le> k" and lt: "deepest_knee_angle s < 170" by simp_all
    from 4 thr have "squat_threshold s \<le> k" by simp
    from update_close [OF 4(3) 4(1) this le]
    have "last_rep_feedback (update_rep_count s k t) = last_rep_feedback (generate_rep_feedback s)"
      by simp
    moreover from 4 thr have "\<not> in_squat (update_rep_count s k t)"
      by (simp add: update_close_in_squat)
    ultimately show ?thesis using feedback_not_too_shallow [OF lt] by simp
  next
    case 5
    with thr have "update_rep_count s k t = s" by (simp add: update_standing)
    with dk fb show ?thesis by simp
  qed
qed

lemma updates_sub_threshold:
  "squat_threshold s = 140 \<Longrightarrow> in_squat s \<longrightarrow> deepest_knee_angle s < 140 \<Longrightarrow>
   \<not> sublist ''Too shallow - go deeper'' (last_rep_feedback s) \<Longrightarrow>
   (in_squat (updates s frames) \<longrightarrow> deepest_knee_angle (updates s frames) < 140) \<and>
   \<not> sublist ''Too shallow - go deeper'' (last_rep_feedback (updates s frames))"
proof (induction s frames rule: updates.induct)
  case (1 s)
  then show ?case by simp
next
  case (2 s k t frames)
  from update_sub_threshold [OF "2.prems", of k t]
  have "in_squat (update_rep_count s k t) \<longrightarrow> deepest_knee_angle (update_rep_count s k t) < 140"
    and "\<not> sublist ''Too shallow - go deeper'' (last_rep_feedback (update_rep_count s k t))"
    by simp_all
  moreover from "2.prems"(1) have "squat_threshold (update_rep_count s k t) = 140"
    by (simp add: update_config)
  ultimately show ?case using "2.IH" by simp
qed

text \<open>
  Claim C7, as stated, fails in its last part: a rep that opens at a knee angle
  between 135 and 140 and goes no deeper completes with the clause
  "Shallow squat - try for more depth", so that branch of the feedback generator
  is reachable through the state machine.
\<close>

theorem shallow_squat_branch_reachable:
  "in_squat (updates init [(138, 35)]) \<and>
   deepest_knee_angle (updates init [(138, 35)]) = 138 \<and>
   rep_count (updates init [(138, 35), (180, 35)]) = 1 \<and>
   last_rep_feedback (updates init [(138, 35), (180, 35)]) =
     ''Shallow squat - try for more depth | Good torso position''"
  by (simp add: init_def update_rep_count_def generate_rep_feedback_def Let_def)

text \<open>
  Claim C7, amended: in every state reached from the initial one, \<open>in_squat\<close>
  implies \<open>deepest_knee_angle < 140\<close>; so every rep completion generates its
  feedback from a deepest knee angle below 140, and no feedback ever contains
  "Too shallow - go deeper" (the band from 170 up). The band
  "Shallow squat - try for more depth" stays reachable, for a rep whose deepest knee
  angle lies strictly between 135 and 140.
\<close>

theorem in_squat_below_threshold:
  "(in_squat (updates init frames) \<longrightarrow> deepest_knee_angle (updates init frames) < 140) \<and>
   \<not> sublist ''Too shallow - go deeper'' (last_rep_feedback (updates init frames)) \<and>
   (in_squat (updates init frames) \<and> 0 < k \<and> 140 \<le> k \<longrightarrow>
      deepest_knee_angle (update_rep_count (updates init frames) k t) < 140 \<and>
      last_rep_feedback (update_rep_count (updates init frames) k t) =
        last_rep_feedback (generate_rep_feedback (updates init frames))) \<and>
   (135 < k0 \<and> k0 < 140 \<longrightarrow>
      prefix ''Shallow squat - try for more depth''
        (last_rep_feedback (updates init [(k0, t0), (180, t0)])))"
proof -
  have i: "squat_threshold init = 140" "in_squat init \<longrightarrow> deepest_knee_angle init < 140"
    "\<not> sublist ''Too shallow - go deeper'' (last_rep_feedback init)"
    by (simp_all add: init_def)
  let ?s = "updates init frames"
  from updates_sub_threshold [OF i, of frames]
  have a: "in_squat ?s \<longrightarrow> deepest_knee_angle ?s < 140"
    and b: "\<not> sublist ''Too shallow - go deeper'' (last_rep_feedback ?s)"
    by simp_all
  have thr: "squat_threshold ?s = 140"
    by (simp add: updates_config init_def)
  have c: "in_squat ?s \<and> 0 < k \<and> 140 \<le> k \<longrightarrow>
      deepest_knee_angle (update_rep_count ?s k t) < 140 \<and>
      last_rep_feedback (update_rep_count ?s k t) =
        last_rep_feedback (generate_rep_feedback ?s)"
  proof (intro impI, elim conjE)
    assume h: "in_squat ?s" "0 < k" "140 \<le> k"
    with a have le: "deepest_knee_angle ?s \<le> k" and lt: "deepest_knee_angle ?s < 140" by simp_all
    from h thr have "squat_threshold ?s \<le> k" by simp
    from update_close [OF h(1) h(2) this le, of t] lt
    show "deepest_knee_angle (update_rep_count ?s k t) < 140 \<and>
      last_rep_feedback (update_rep_count ?s k t) =
        last_rep_feedback (generate_rep_feedback ?s)" by simp
  qed
  have d: "135 < k0 \<and> k0 < 140 \<longrightarrow>
      prefix ''Shallow squat - try for more depth''
        (last_rep_feedback (updates init [(k0, t0), (180, t0)]))"
    by (simp add: init_def update_rep_count_def generate_rep_feedback_def Let_def)
  from a b c d show ?thesis by (intro conjI)
qed


theorem in_squat_below_threshold_witness:
  "in_squat (updates init [(138, 35)]) \<and> (0::real) < 180 \<and> (140::real) \<le> 180 \<and>
   (135::real) < 138 \<and> (138::real) < 140 \<and>
   deepest_knee_angle (updates init [(138, 35)]) < 140 \<and>
   deepest_knee_angle (update_rep_count (updates init [(138, 35)]) 180 35) < 140 \<and>
   last_rep_feedback (update_rep_count (updates init [(138, 35)]) 180 35) =
     last_rep_feedback (generate_rep_feedback (updates init [(138, 35)])) \<and>
   prefix ''Shallow squat - try for more depth''
     (last_rep_feedback (updates init [(138, 35), (180, 35)]))"
proof -
  have a: "in_squat (updates init [(138, 35)])"
    by (simp add: init_def update_rep_count_def)
  have b: "(0::real) < 180 \<and> (140::real) \<le> 180" "(135::real) < 138 \<and> (138::real) < 140"
    by simp_all
  from in_squat_below_threshold [of "[(138, 35)]" 180 35 138 35] a b show ?thesis
    by blast
qed

section \<open>Completing a rep\<close>





section \<open>The angle calculator\<close>

lemma arctan2_bounds: "- pi < arctan2 y x \<and> arctan2 y x \<le> pi"
proof -
  have a: "- (pi / 2) < arctan (y / x)" "arctan (y / x) < pi / 2"
    by (rule arctan_lbound, rule arctan_ubound)
  have p: "0 < pi" by (rule pi_gt_zero)
  consider "0 < x" | "x < 0" "0 \<le> y" | "x < 0" "y < 0" | "x = 0" by linarith
  then show ?thesis
  proof cases
    case 1
    then have "arctan2 y x = arctan (y / x)" by (simp add: arctan2_def)
    with a p show ?thesis by linarith
  next
    case 2
    then have "y / x \<le> 0" by (simp add: divide_nonneg_neg)
    then have "arctan (y / x) \<le> 0" by (simp add: arctan_le_zero_iff)
    moreover from 2 have "arctan2 y x = arctan (y / x) + pi" by (simp add: arctan2_def)
    ultimately show ?thesis using a p by linarith
  next
    case 3
    then have "0 < y / x" by (simp add: divide_neg_neg)
    then have "0 < arctan (y / x)" by (simp add: zero_less_arctan_iff)
    moreover from 3 have "arctan2 y x = arctan (y / x) - pi" by (simp add: arctan2_def)
    ultimately show ?thesis using a p by linarith
  next
    case 4
    then have "arctan2 y x = pi / 2 \<or> arctan2 y x = - (pi / 2) \<or> arctan2 y x = 0"
      by (simp add: arctan2_def)
    with p show ?thesis by linarith
  qed
qed

lemma arctan2_second_quadrant: "arctan2 1 (- 1) = 3 * pi / 4"
proof -
  have "arctan2 1 (- 1) = arctan (- 1) + pi" by (simp add: arctan2_def)
  also have "arctan (- 1) = - (pi / 4)" by (simp only: arctan_minus arctan_one)
  finally show ?thesis by simp
qed

lemma arctan2_third_quadrant: "arctan2 (- 1) (- 1) = - (3 * pi / 4)"
proof -
  have "arctan2 (- 1) (- 1) = arctan 1 - pi" by (simp add: arctan2_def)
  also have "arctan 1 = pi / 4" by (rule arctan_one)
  finally show ?thesis by simp
qed

lemma arctan2_up: "arctan2 1 0 = pi / 2"
  by (simp add: arctan2_def)

lemma arctan2_right: "arctan2 0 1 = 0"
  by (simp add: arctan2_def)


text \<open>
  Claim C8: for points with \<open>a \<noteq> b\<close> and \<open>c \<noteq> b\<close>, swapping the outer
  arguments does not change the angle.
\<close>

theorem calculate_angle_symmetric:
  assumes "a \<noteq> b" and "c \<noteq> b"
  shows "calculate_angle a b c = calculate_angle c b a"
proof -
  define u where "u = arctan2 (snd c - snd b) (fst c - fst b)"
  define v where "v = arctan2 (snd a - snd b) (fst a - fst b)"
  have "(u - v) * 180 / pi = - ((v - u) * 180 / pi)"
    by (simp add: diff_divide_distrib left_diff_distrib)
  then have e: "\<bar>(u - v) * 180 / pi\<bar> = \<bar>(v - u) * 180 / pi\<bar>"
    by (simp only: abs_minus)
  have abc: "calculate_angle a b c =
      (if \<bar>(u - v) * 180 / pi\<bar> > 180 then 360 - \<bar>(u - v) * 180 / pi\<bar>
       else \<bar>(u - v) * 180 / pi\<bar>)"
    by (simp add: calculate_angle_def Let_def u_def v_def)
  have cba: "calculate_angle c b a =
      (if \<bar>(v - u) * 180 / pi\<bar> > 180 then 360 - \<bar>(v - u) * 180 / pi\<bar>
       else \<bar>(v - u) * 180 / pi\<bar>)"
    by (simp add: calculate_angle_def Let_def u_def v_def)
  show ?thesis
    by (simp only: abc cba e)
qed


theorem calculate_angle_symmetric_witness:
  "(1::real, 0::real) \<noteq> (0, 0) \<and> (0::real, 1::real) \<noteq> (0, 0) \<and>
   calculate_angle (1, 0) (0, 0) (0, 1) = calculate_angle (0, 1) (0, 0) (1, 0) \<and>
   calculate_angle (1, 0) (0, 0) (0, 1) = 90"
proof -
  have h1: "(1::real, 0::real) \<noteq> (0, 0)" and h2: "(0::real, 1::real) \<noteq> (0, 0)"
    by simp_all
  have v: "calculate_angle (1, 0) (0, 0) (0, 1) = 90"
    by (simp add: calculate_angle_def Let_def arctan2_up arctan2_right)
  from calculate_angle_symmetric [OF h1 h2] h1 h2 v show ?thesis
    by (intro conjI)
qed

text \<open>
  Claim C9: for points with \<open>a \<noteq> b\<close> and \<open>c \<noteq> b\<close> the angle lies between 0
  and 180: it is the absolute difference of the two polar angles in degrees, and a
  value above 180 is replaced by 360 minus that value.
\<close>

theorem calculate_angle_range:
  assumes "a \<noteq> b" and "c \<noteq> b"
  shows "0 \<le> calculate_angle a b c \<and> calculate_angle a b c \<le> 180 \<and>
    calculate_angle a b c =
      (if \<bar>(arctan2 (snd c - snd b) (fst c - fst b)
              - arctan2 (snd a - snd b) (fst a - fst b)) * 180 / pi\<bar> > 180
       then 360 - \<bar>(arctan2 (snd c - snd b) (fst c - fst b)
              - arctan2 (snd a - snd b) (fst a - fst b)) * 180 / pi\<bar>
       else \<bar>(arctan2 (snd c - snd b) (fst c - fst b)
              - arctan2 (snd a - snd b) (fst a - fst b)) * 180 / pi\<bar>)"
proof -
  define u where "u = arctan2 (snd c - snd b) (fst c - fst b)"
  define v where "v = arctan2 (snd a - snd b) (fst a - fst b)"
  define d where "d = \<bar>(u - v) * 180 / pi\<bar>"
  have p: "0 < pi" by (rule pi_gt_zero)
  have ub: "- pi < u \<and> u \<le> pi" unfolding u_def by (rule arctan2_bounds)
  have vb: "- pi < v \<and> v \<le> pi" unfolding v_def by (rule arctan2_bounds)
  then have "\<bar>u - v\<bar> < 2 * pi" using ub by linarith
  then have "\<bar>u - v\<bar> * 180 / pi < 360" using p by (simp add: pos_divide_less_eq)
  moreover have "d = \<bar>u - v\<bar> * \<bar>180 / pi\<bar>"
    unfolding d_def by (simp only: abs_mult [symmetric] times_divide_eq_right)
  then have "d = \<bar>u - v\<bar> * 180 / pi" using p by simp
  ultimately have d: "0 \<le> d" "d < 360" by (simp_all add: d_def)
  have e: "calculate_angle a b c = (if d > 180 then 360 - d else d)"
    by (simp add: calculate_angle_def Let_def d_def u_def v_def)
  with d have "0 \<le> calculate_angle a b c \<and> calculate_angle a b c \<le> 180"
    by simp
  with e show ?thesis
    unfolding d_def u_def v_def by simp
qed


theorem calculate_angle_range_witness:
  "(- 1::real, 1::real) \<noteq> (0, 0) \<and> (- 1::real, - 1::real) \<noteq> (0, 0) \<and>
   0 \<le> calculate_angle (- 1, 1) (0, 0) (- 1, - 1) \<and>
   calculate_angle (- 1, 1) (0, 0) (- 1, - 1) \<le> 180 \<and>
   calculate_angle (- 1, 1) (0, 0) (- 1, - 1) = 90"
proof -
  have h1: "(- 1::real, 1::real) \<noteq> (0, 0)" and h2: "(- 1::real, - 1::real) \<noteq> (0, 0)"
    by simp_all
  have v: "calculate_angle (- 1, 1) (0, 0) (- 1, - 1) = 90"
    by (simp add: calculate_angle_def Let_def arctan2_second_quadrant
          arctan2_third_quadrant)
  from calculate_angle_range [OF h1 h2]
  have "0 \<le> calculate_angle (- 1, 1) (0, 0) (- 1, - 1)"
    and "calculate_angle (- 1, 1) (0, 0) (- 1, - 1) \<le> 180"
    by simp_all
  with h1 h2 v show ?thesis
    by (intro conjI)
qed

end
